theory Spec2Isabelle
  imports Main
begin

section \<open>Errors\<close>

text \<open>
  Go error values. The three sentinels of the repository and service packages are
  constructors of their own; \<open>New\<close> is an error made from a text alone and \<open>Errorf\<close> is
  \<^verbatim>\<open>fmt.Errorf(prefix + "%w", err)\<close>, a wrapper that keeps the wrapped error. Errors made
  outside the packages under verification have types of their own, since the gorm library
  and the util package do not return the sentinels of the repository and the service.
\<close>

datatype gorm_error =
    ErrDuplicatedKey
  | ErrRecordNotFound
  | DriverError string

text \<open>
  Modelled from the spec: the errors of the missing package \<^verbatim>\<open>internal/util\<close>, by the kinds
  that sections 4.1, 4.2 and 7 name for the two codecs; \<open>OtherFailure\<close> is any other error
  of that package.
\<close>

datatype util_error =
    HashingFailure
  | IssuanceFailure
  | Malformed
  | SignatureInvalid
  | Expired
  | OtherFailure string

datatype error =
    ErrUserNotFound
  | ErrDuplicateEmail
  | ErrInvalidCredentials
  | Gorm gorm_error
  | Util util_error
  | New string
  | Errorf string error

text \<open>
  \<^verbatim>\<open>errors.Is(err, target)\<close>: equality with the target anywhere along the chain of wrapped
  errors.
\<close>

fun errors_Is :: "error \<Rightarrow> error \<Rightarrow> bool" where
  "errors_Is (Errorf p e) t = (Errorf p e = t \<or> errors_Is e t)"
| "errors_Is e t = (e = t)"

text \<open>
  \<^verbatim>\<open>err.Error()\<close>. The texts of the sentinels are the ones given to \<^verbatim>\<open>errors.New\<close>; the text of
  an error of the util package is not known here and is the parameter \<open>describe\<close>.
\<close>

fun gorm_text :: "gorm_error \<Rightarrow> string" where
  "gorm_text ErrDuplicatedKey = ''duplicated key not allowed''"
| "gorm_text ErrRecordNotFound = ''record not found''"
| "gorm_text (DriverError m) = m"

fun Error :: "(util_error \<Rightarrow> string) \<Rightarrow> error \<Rightarrow> string" where
  "Error describe ErrUserNotFound = ''user not found''"
| "Error describe ErrDuplicateEmail = ''email already exists''"
| "Error describe ErrInvalidCredentials = ''invalid email or password''"
| "Error describe (Gorm g) = gorm_text g"
| "Error describe (Util u) = describe u"
| "Error describe (New m) = m"
| "Error describe (Errorf p e) = p @ Error describe e"

section \<open>Domain\<close>

text \<open>A \<^verbatim>\<open>time.Time\<close> is a number of seconds; \<open>0\<close> is the zero time.\<close>

type_synonym time = int

record User =
  ID :: string
  Email :: string
  Name :: string
  Password :: string
  CreatedAt :: time
  UpdatedAt :: time

record RegisterRequest =
  RegEmail :: string
  RegName :: string
  RegPassword :: string

record LoginRequest =
  LoginEmail :: string
  LoginPassword :: string

record LoginResponse =
  RespToken :: string
  RespUser :: User

text \<open>
  What one call draws from the outside world: the clock, the identifier that
  \<^verbatim>\<open>uuid.New()\<close> yields, the random bytes available to the password hash (\<open>None\<close> when the
  entropy source fails) and the infrastructure fault, if any, that the store meets.
\<close>

record io =
  now :: time
  uuid :: string
  entropy :: "string option"
  fault :: "string option"

text \<open>The hook \<^verbatim>\<open>User.BeforeCreate\<close>: an empty identifier is replaced by a fresh one.\<close>

definition BeforeCreate :: "io \<Rightarrow> User \<Rightarrow> User" where
  "BeforeCreate w u = (if ID u = [] then u\<lparr>ID := uuid w\<rparr> else u)"

section \<open>The store\<close>

text \<open>
  Modelled from the spec: the store behind \<^verbatim>\<open>*gorm.DB\<close>, which the missing package
  \<^verbatim>\<open>internal/database\<close> opens and migrates. It is the Account Directory of section 6, whose
  \<^verbatim>\<open>Create\<close> fails with a duplicate key or with a storage error and whose lookups fail with
  not-found or with a storage error. The table \<^verbatim>\<open>users\<close> is as the tags of \<^verbatim>\<open>domain.User\<close>
  declare it: \<open>ID\<close> is the primary key and \<open>Email\<close> has a unique index. \<^verbatim>\<open>Create\<close> runs the
  hook, fills the two timestamps that are still zero, and inserts the row unless a fault
  occurs or a row with the same key or the same email exists; the latter is reported as
  \<^verbatim>\<open>gorm.ErrDuplicatedKey\<close>, as gorm does for a connection opened with its translation of
  driver errors. The struct the caller passed is updated through its pointer, so it is
  returned next to the error.
\<close>

record gormDB =
  rows :: "User list"

definition autoTime :: "io \<Rightarrow> User \<Rightarrow> User" where
  "autoTime w u =
     (let u1 = (if CreatedAt u = 0 then u\<lparr>CreatedAt := now w\<rparr> else u)
      in (if UpdatedAt u1 = 0 then u1\<lparr>UpdatedAt := now w\<rparr> else u1))"

definition violates :: "User \<Rightarrow> gormDB \<Rightarrow> bool" where
  "violates u db = (\<exists>r \<in> set (rows db). ID r = ID u \<or> Email r = Email u)"

definition gorm_Create :: "io \<Rightarrow> User \<Rightarrow> gormDB \<Rightarrow> (gorm_error option \<times> User) \<times> gormDB" where
  "gorm_Create w u db =
     (let u' = autoTime w (BeforeCreate w u)
      in case fault w of
           Some m \<Rightarrow> ((Some (DriverError m), u'), db)
         | None \<Rightarrow>
             if violates u' db then ((Some ErrDuplicatedKey, u'), db)
             else ((None, u'), db\<lparr>rows := rows db @ [u']\<rparr>))"

text \<open>
  Modelled from the spec: the lookups of the same store.
  \<^verbatim>\<open>Where(cond).First(&user)\<close> yields the first matching row, \<^verbatim>\<open>gorm.ErrRecordNotFound\<close> when no
  row matches. On a table that respects its two indexes at most one row matches either
  condition used below.
\<close>

definition gorm_First :: "io \<Rightarrow> (User \<Rightarrow> bool) \<Rightarrow> gormDB \<Rightarrow> gorm_error + User" where
  "gorm_First w cond db =
     (case fault w of
        Some m \<Rightarrow> Inl (DriverError m)
      | None \<Rightarrow> (case find cond (rows db) of
                   None \<Rightarrow> Inl ErrRecordNotFound
                 | Some u \<Rightarrow> Inr u))"

section \<open>Repository\<close>

definition userRepository_Create :: "io \<Rightarrow> User \<Rightarrow> gormDB \<Rightarrow> (error option \<times> User) \<times> gormDB" where
  "userRepository_Create w user db =
     (case gorm_Create w user db of
        ((Some e, user'), db') \<Rightarrow>
          if errors_Is (Gorm e) (Gorm ErrDuplicatedKey) then ((Some ErrDuplicateEmail, user'), db')
          else ((Some (Gorm e), user'), db')
      | ((None, user'), db') \<Rightarrow> ((None, user'), db'))"

definition userRepository_GetByID :: "io \<Rightarrow> string \<Rightarrow> gormDB \<Rightarrow> error + User" where
  "userRepository_GetByID w id' db =
     (case gorm_First w (\<lambda>u. ID u = id') db of
        Inl e \<Rightarrow>
          if errors_Is (Gorm e) (Gorm ErrRecordNotFound) then Inl ErrUserNotFound
          else Inl (Gorm e)
      | Inr user \<Rightarrow> Inr user)"

definition userRepository_GetByEmail :: "io \<Rightarrow> string \<Rightarrow> gormDB \<Rightarrow> error + User" where
  "userRepository_GetByEmail w email db =
     (case gorm_First w (\<lambda>u. Email u = email) db of
        Inl e \<Rightarrow>
          if errors_Is (Gorm e) (Gorm ErrRecordNotFound) then Inl ErrUserNotFound
          else Inl (Gorm e)
      | Inr user \<Rightarrow> Inr user)"

section \<open>The util package\<close>

text \<open>
  Modelled from the spec: the claims of a token, a type of the missing package
  \<^verbatim>\<open>internal/util\<close>. The service reads the field \<open>UserID\<close>; the other fields are those that
  the Session Token of section 3 and \<^verbatim>\<open>Issue\<close> of section 4.2 give it.
\<close>

record Claims =
  UserID :: string
  ClaimEmail :: string
  IssuedAt :: time
  ExpiresAt :: time

text \<open>
  The package \<^verbatim>\<open>internal/util\<close> is called by the service and is a parameter of it: a record
  of its four functions. \<^verbatim>\<open>HashPassword\<close> also receives the random bytes it draws and the
  two token functions the clock.
\<close>

record util =
  HashPassword :: "string option \<Rightarrow> string \<Rightarrow> util_error + string"
  CheckPassword :: "string \<Rightarrow> string \<Rightarrow> bool"
  GenerateJWT :: "time \<Rightarrow> string \<Rightarrow> string \<Rightarrow> string \<Rightarrow> util_error + string"
  ValidateJWT :: "time \<Rightarrow> string \<Rightarrow> string \<Rightarrow> util_error + Claims"

section \<open>Service\<close>

record userService =
  jwtSecret :: string

definition userService_Register ::
  "util \<Rightarrow> userService \<Rightarrow> io \<Rightarrow> RegisterRequest \<Rightarrow> gormDB \<Rightarrow> (error + User) \<times> gormDB" where
  "userService_Register U s w req db =
     (case HashPassword U (entropy w) (RegPassword req) of
        Inl err \<Rightarrow> (Inl (Errorf ''failed to hash password: '' (Util err)), db)
      | Inr hashedPassword \<Rightarrow>
          (let user = \<lparr>ID = [], Email = RegEmail req, Name = RegName req,
                       Password = hashedPassword, CreatedAt = 0, UpdatedAt = 0\<rparr>
           in case userRepository_Create w user db of
                ((Some err, user'), db') \<Rightarrow>
                  if errors_Is err ErrDuplicateEmail then (Inl err, db')
                  else (Inl (Errorf ''failed to create user: '' err), db')
              | ((None, user'), db') \<Rightarrow> (Inr (user'\<lparr>Password := []\<rparr>), db')))"

definition userService_Login ::
  "util \<Rightarrow> userService \<Rightarrow> io \<Rightarrow> LoginRequest \<Rightarrow> gormDB \<Rightarrow> error + LoginResponse" where
  "userService_Login U s w req db =
     (case userRepository_GetByEmail w (LoginEmail req) db of
        Inl err \<Rightarrow>
          if errors_Is err ErrUserNotFound then Inl ErrInvalidCredentials
          else Inl (Errorf ''failed to get user: '' err)
      | Inr user \<Rightarrow>
          if \<not> CheckPassword U (LoginPassword req) (Password user) then Inl ErrInvalidCredentials
          else (case GenerateJWT U (now w) (ID user) (Email user) (jwtSecret s) of
                  Inl err \<Rightarrow> Inl (Errorf ''failed to generate token: '' (Util err))
                | Inr token \<Rightarrow> Inr \<lparr>RespToken = token, RespUser = user\<lparr>Password := []\<rparr>\<rparr>))"

definition userService_GetUserByID ::
  "userService \<Rightarrow> io \<Rightarrow> string \<Rightarrow> gormDB \<Rightarrow> error + User" where
  "userService_GetUserByID s w id' db =
     (case userRepository_GetByID w id' db of
        Inl err \<Rightarrow> Inl err
      | Inr user \<Rightarrow> Inr (user\<lparr>Password := []\<rparr>))"

definition userService_ValidateToken ::
  "util \<Rightarrow> userService \<Rightarrow> io \<Rightarrow> string \<Rightarrow> error + string" where
  "userService_ValidateToken U s w token =
     (case ValidateJWT U (now w) token (jwtSecret s) of
        Inl err \<Rightarrow> Inl (Util err)
      | Inr claims \<Rightarrow> Inr (UserID claims))"

section \<open>RPC transport\<close>

datatype codes = InvalidArgument | NotFound | Internal

type_synonym status = "codes \<times> string"

record GetUserResponse =
  Id :: string
  RpcEmail :: string
  RpcName :: string
  RpcCreatedAt :: string

record ValidateTokenResponse =
  Valid :: bool
  UserId :: string
  Message :: string

text \<open>
  A handler holds the service as an interface value, so each handler below takes the
  service method it calls as a function. A handler of the RPC transport returns a response
  or a transport-level status error (\<open>Inl\<close>). \<open>format\<close> stands for
  \<^verbatim>\<open>time.Time.Format\<close> with the layout of the source.
\<close>

definition GRPCHandler_GetUser ::
  "(time \<Rightarrow> string) \<Rightarrow> (string \<Rightarrow> error + User) \<Rightarrow> string \<Rightarrow> status + GetUserResponse" where
  "GRPCHandler_GetUser format getUserByID userId =
     (if userId = [] then Inl (InvalidArgument, ''user_id is required'')
      else case getUserByID userId of
             Inl err \<Rightarrow>
               if errors_Is err ErrUserNotFound then Inl (NotFound, ''user not found'')
               else Inl (Internal, ''failed to get user'')
           | Inr u \<Rightarrow> Inr \<lparr>Id = ID u, RpcEmail = Email u, RpcName = Name u,
                           RpcCreatedAt = format (CreatedAt u)\<rparr>)"

definition GRPCHandler_ValidateToken ::
  "(util_error \<Rightarrow> string) \<Rightarrow> (string \<Rightarrow> error + string) \<Rightarrow> string
     \<Rightarrow> status + ValidateTokenResponse" where
  "GRPCHandler_ValidateToken describe validateToken token =
     (if token = [] then Inr \<lparr>Valid = False, UserId = [], Message = ''token is required''\<rparr>
      else case validateToken token of
             Inl err \<Rightarrow> Inr \<lparr>Valid = False, UserId = [], Message = Error describe err\<rparr>
           | Inr userID \<Rightarrow> Inr \<lparr>Valid = True, UserId = userID, Message = ''token is valid''\<rparr>)"

section \<open>HTTP transport\<close>

text \<open>
  \<^verbatim>\<open>c.JSON(code, obj)\<close> writes a status code and a body. The JSON form of a user has no
  password field (tag \<^verbatim>\<open>json:"-"\<close>). The outcome of \<^verbatim>\<open>c.ShouldBindJSON\<close> is an input of a
  handler: the text of the binding error, or the request.
\<close>

record UserJSON =
  json_id :: string
  json_email :: string
  json_name :: string
  json_created_at :: time
  json_updated_at :: time

definition json_User :: "User \<Rightarrow> UserJSON" where
  "json_User u = \<lparr>json_id = ID u, json_email = Email u, json_name = Name u,
                   json_created_at = CreatedAt u, json_updated_at = UpdatedAt u\<rparr>"

datatype body =
    ErrorResponse string
  | UserBody UserJSON
  | LoginBody string UserJSON

type_synonym response = "nat \<times> body"

definition HTTPHandler_Register ::
  "(RegisterRequest \<Rightarrow> 's \<Rightarrow> (error + User) \<times> 's) \<Rightarrow> string + RegisterRequest \<Rightarrow> 's
     \<Rightarrow> response \<times> 's" where
  "HTTPHandler_Register register bound st =
     (case bound of
        Inl msg \<Rightarrow> ((400, ErrorResponse msg), st)
      | Inr req \<Rightarrow>
          (case register req st of
             (Inl err, st') \<Rightarrow>
               if errors_Is err ErrDuplicateEmail
               then ((409, ErrorResponse ''Email already exists''), st')
               else ((500, ErrorResponse ''Failed to register user''), st')
           | (Inr user, st') \<Rightarrow> ((201, UserBody (json_User user)), st')))"

definition HTTPHandler_Login ::
  "(LoginRequest \<Rightarrow> error + LoginResponse) \<Rightarrow> string + LoginRequest \<Rightarrow> response" where
  "HTTPHandler_Login login bound =
     (case bound of
        Inl msg \<Rightarrow> (400, ErrorResponse msg)
      | Inr req \<Rightarrow>
          (case login req of
             Inl err \<Rightarrow>
               if errors_Is err ErrInvalidCredentials
               then (401, ErrorResponse ''Invalid email or password'')
               else (500, ErrorResponse ''Failed to login'')
           | Inr r \<Rightarrow> (200, LoginBody (RespToken r) (json_User (RespUser r)))))"

definition HTTPHandler_GetUser :: "(string \<Rightarrow> error + User) \<Rightarrow> string \<Rightarrow> response" where
  "HTTPHandler_GetUser getUserByID id' =
     (case getUserByID id' of
        Inl err \<Rightarrow>
          if errors_Is err ErrUserNotFound then (404, ErrorResponse ''User not found'')
          else (500, ErrorResponse ''Failed to get user'')
      | Inr user \<Rightarrow> (200, UserBody (json_User user)))"

text \<open>
  The translation of error kinds into status codes as the specification words it, for
  comparison with the handlers above.
\<close>

definition facade_status :: "error \<Rightarrow> nat" where
  "facade_status e =
     (if errors_Is e ErrDuplicateEmail then 409
      else if errors_Is e ErrInvalidCredentials then 401
      else if errors_Is e ErrUserNotFound then 404
      else 500)"

section \<open>Configuration\<close>

text \<open>
  The process environment is a map from names to values; \<^verbatim>\<open>os.Getenv\<close> yields the empty
  string for a name that is not set. \<^verbatim>\<open>godotenv.Load\<close> adds the entries of the file
  \<^verbatim>\<open>.env\<close>, when that file can be read (\<open>Some\<close>), for the names the environment does not
  set already; its error is dropped by the caller.
\<close>

type_synonym environ = "string \<rightharpoonup> string"

record Config =
  DatabaseURL :: string
  JWTSecret :: string
  HTTPPort :: string
  GRPCPort :: string
  Environment :: string

definition os_Getenv :: "environ \<Rightarrow> string \<Rightarrow> string" where
  "os_Getenv env key = (case env key of None \<Rightarrow> [] | Some v \<Rightarrow> v)"

definition godotenv_Load :: "environ option \<Rightarrow> environ \<Rightarrow> environ" where
  "godotenv_Load dotenv env = (case dotenv of None \<Rightarrow> env | Some file \<Rightarrow> file ++ env)"

definition getEnv :: "environ \<Rightarrow> string \<Rightarrow> string \<Rightarrow> string" where
  "getEnv env key defaultValue =
     (let v = os_Getenv env key in if v \<noteq> [] then v else defaultValue)"

definition Load :: "environ option \<Rightarrow> environ \<Rightarrow> error + Config" where
  "Load dotenv env0 =
     (let env = godotenv_Load dotenv env0;
          cfg = \<lparr>DatabaseURL = getEnv env ''DATABASE_URL'' [],
                 JWTSecret = getEnv env ''JWT_SECRET'' ''your-secret-key-change-in-production'',
                 HTTPPort = getEnv env ''HTTP_PORT'' ''8080'',
                 GRPCPort = getEnv env ''GRPC_PORT'' ''50051'',
                 Environment = getEnv env ''ENVIRONMENT'' ''development''\<rparr>
      in if DatabaseURL cfg = [] then Inl (New ''DATABASE_URL is required'') else Inr cfg)"

section \<open>Credential Codec and Token Codec\<close>

text \<open>
  Modelled from the spec: the parameters of the Credential Codec behind
  \<^verbatim>\<open>util.HashPassword\<close> and \<^verbatim>\<open>util.CheckPassword\<close>, whose source (package \<^verbatim>\<open>internal/util\<close>) is
  missing. A stored hash is self-describing: it frames the algorithm parameters (\<open>cost\<close>),
  the salt and the digest. The one-way function \<open>digest\<close> (which may fail), the parameters
  that verification accepts and the framing are left open.
\<close>

record credential_codec =
  cost :: nat
  accepted :: "nat \<Rightarrow> bool"
  digest :: "nat \<Rightarrow> string \<Rightarrow> string \<Rightarrow> string option"
  frame_hash :: "nat \<times> string \<times> string \<Rightarrow> string"
  unframe_hash :: "string \<Rightarrow> (nat \<times> string \<times> string) option"

text \<open>
  Modelled from the spec: \<^verbatim>\<open>Hash(plaintext)\<close> of section 4.1, for the missing
  \<^verbatim>\<open>util.HashPassword\<close>. It draws a salt, digests the plaintext with it and frames
  parameters, salt and digest; it fails only when the entropy source or the algorithm
  fails.
\<close>

definition Hash :: "credential_codec \<Rightarrow> string option \<Rightarrow> string \<Rightarrow> util_error + string" where
  "Hash cc drawn plaintext =
     (case drawn of
        None \<Rightarrow> Inl HashingFailure
      | Some salt \<Rightarrow>
          (case digest cc (cost cc) salt plaintext of
             None \<Rightarrow> Inl HashingFailure
           | Some d \<Rightarrow> Inr (frame_hash cc (cost cc, salt, d))))"

text \<open>
  Modelled from the spec: \<^verbatim>\<open>Verify(plaintext, hash)\<close> of section 4.1, for the missing
  \<^verbatim>\<open>util.CheckPassword\<close>. The result is a boolean: false for a hash that cannot be
  unframed, for parameters that are not accepted and for a digest that differs.
\<close>

definition Verify :: "credential_codec \<Rightarrow> string \<Rightarrow> string \<Rightarrow> bool" where
  "Verify cc plaintext h =
     (case unframe_hash cc h of
        None \<Rightarrow> False
      | Some (c, salt, d) \<Rightarrow> accepted cc c \<and> digest cc c salt plaintext = Some d)"

text \<open>
  Modelled from the spec: the parameters of the Token Codec behind \<^verbatim>\<open>util.GenerateJWT\<close> and
  \<^verbatim>\<open>util.ValidateJWT\<close>, whose source is missing: the lifetime of a token, the symmetric
  signature \<open>mac\<close> of the claims under a secret (which may fail) and the framing of claims
  and signature into the token text.
\<close>

record token_codec =
  lifetime :: int
  mac :: "string \<Rightarrow> Claims \<Rightarrow> string option"
  frame_token :: "Claims \<times> string \<Rightarrow> string"
  unframe_token :: "string \<Rightarrow> (Claims \<times> string) option"

text \<open>
  Modelled from the spec: \<^verbatim>\<open>Issue(subjectID, subjectEmail, signingSecret)\<close> of section 4.2,
  for the missing \<^verbatim>\<open>util.GenerateJWT\<close>. The claims carry the subject and an expiry a fixed
  duration after issuance, and are signed under the secret.
\<close>

definition new_claims :: "token_codec \<Rightarrow> time \<Rightarrow> string \<Rightarrow> string \<Rightarrow> Claims" where
  "new_claims tc t subjectID subjectEmail =
     \<lparr>UserID = subjectID, ClaimEmail = subjectEmail, IssuedAt = t, ExpiresAt = t + lifetime tc\<rparr>"

definition Issue ::
  "token_codec \<Rightarrow> time \<Rightarrow> string \<Rightarrow> string \<Rightarrow> string \<Rightarrow> util_error + string" where
  "Issue tc t subjectID subjectEmail signingSecret =
     (let c = new_claims tc t subjectID subjectEmail
      in case mac tc signingSecret c of
           None \<Rightarrow> Inl IssuanceFailure
         | Some sg \<Rightarrow> Inr (frame_token tc (c, sg)))"

text \<open>
  Modelled from the spec: \<^verbatim>\<open>Decode(token, signingSecret)\<close> of section 4.2, for the missing
  \<^verbatim>\<open>util.ValidateJWT\<close>. It checks well-formedness first, then the signature, then the
  expiry, and stops at the first check that fails. An expiry has elapsed from the instant
  of expiry on.
\<close>

definition Decode :: "token_codec \<Rightarrow> time \<Rightarrow> string \<Rightarrow> string \<Rightarrow> util_error + Claims" where
  "Decode tc t token signingSecret =
     (case unframe_token tc token of
        None \<Rightarrow> Inl Malformed
      | Some (c, sg) \<Rightarrow>
          if mac tc signingSecret c \<noteq> Some sg then Inl SignatureInvalid
          else if ExpiresAt c \<le> t then Inl Expired
          else Inr c)"

text \<open>
  Modelled from the spec: the package \<^verbatim>\<open>internal/util\<close> as the two codecs of section 4
  make it up.
\<close>

definition codec_util :: "credential_codec \<Rightarrow> token_codec \<Rightarrow> util" where
  "codec_util cc tc =
     \<lparr>HashPassword = Hash cc, CheckPassword = Verify cc,
      GenerateJWT = Issue tc, ValidateJWT = Decode tc\<rparr>"

text \<open>
  What a round trip needs of a framing: that the stored value \<open>Hash\<close> makes from a salt
  and a plaintext, and the token \<open>Issue\<close> makes, are unframed to what was framed.
\<close>

definition hash_reads_back :: "credential_codec \<Rightarrow> string \<Rightarrow> string \<Rightarrow> bool" where
  "hash_reads_back cc salt plaintext =
     (case digest cc (cost cc) salt plaintext of
        None \<Rightarrow> True
      | Some d \<Rightarrow> unframe_hash cc (frame_hash cc (cost cc, salt, d)) = Some (cost cc, salt, d))"


section \<open>The codecs with their framing\<close>

text \<open>
  The two codecs of the specification fix what the records above leave open, but for the
  one-way function, the lifetime and the secrets that signing refuses.
\<close>

text \<open>
  Modelled from the spec: the self-contained, self-describing texts of section 3, for the
  missing package \<^verbatim>\<open>internal/util\<close>. A text is a row of fields. A field is written
  character by character, each behind the mark \<open>+\<close>, and closed by the mark \<open>.\<close>; what
  follows the last field is the rest.
\<close>

fun put_field :: "string \<Rightarrow> string \<Rightarrow> string" where
  "put_field [] rest = CHR ''.'' # rest"
| "put_field (x # xs) rest = CHR ''+'' # x # put_field xs rest"

fun get_field :: "string \<Rightarrow> (string \<times> string) option" where
  "get_field [] = None"
| "get_field [m] = (if m = CHR ''.'' then Some ([], []) else None)"
| "get_field (m # x # rest) =
     (if m = CHR ''.'' then Some ([], x # rest)
      else if m = CHR ''+'' then
        (case get_field rest of None \<Rightarrow> None | Some (f, r) \<Rightarrow> Some (x # f, r))
      else None)"

text \<open>
  Modelled from the spec: numbers in such texts, for the same missing package. A natural
  number is written as its bytes, the lowest first; an instant as a sign and the bytes of
  its magnitude.
\<close>

function put_nat :: "nat \<Rightarrow> string" where
  "put_nat n = (if n = 0 then [] else char_of (n mod 256) # put_nat (n div 256))"
  by pat_completeness auto
termination
  by (relation "measure id") auto

fun get_nat :: "string \<Rightarrow> nat" where
  "get_nat [] = 0"
| "get_nat (c # cs) = of_char c + 256 * get_nat cs"






text \<open>
  Modelled from the spec: the Credential Codec of section 4.1, for the missing
  \<^verbatim>\<open>util.HashPassword\<close> and \<^verbatim>\<open>util.CheckPassword\<close>. A stored hash is the text of the
  parameters and of the salt followed by the digest. Verification accepts the parameters
  that hashing uses and those of older hashes (\<open>legacy\<close>). The one-way function stays open.
\<close>

definition spec_credential_codec ::
  "nat \<Rightarrow> (nat \<Rightarrow> bool) \<Rightarrow> (nat \<Rightarrow> string \<Rightarrow> string \<Rightarrow> string option) \<Rightarrow> credential_codec" where
  "spec_credential_codec c legacy dg =
     \<lparr>cost = c,
      accepted = (\<lambda>c'. c' = c \<or> legacy c'),
      digest = dg,
      frame_hash = (\<lambda>x. put_field (put_nat (fst x)) (put_field (fst (snd x)) (snd (snd x)))),
      unframe_hash = (\<lambda>h. case get_field h of
                             None \<Rightarrow> None
                           | Some (cf, h1) \<Rightarrow>
                               (case get_field h1 of
                                  None \<Rightarrow> None
                                | Some (salt, d) \<Rightarrow> Some (get_nat cf, salt, d)))\<rparr>"

text \<open>
  Modelled from the spec: the entropy source behind \<open>Hash\<close> (section 4.1: a distinct salt
  each call). The source counts its draws; a draw yields the count as salt, or nothing
  when the source fails at that draw, and moves the count on. \<open>Hash_call\<close> is one call of
  \<open>Hash\<close> on the source, and \<open>Hash_calls\<close> a run of calls, one for each plaintext.
\<close>

record source =
  draws :: nat
  failing :: "nat \<Rightarrow> bool"

definition draw :: "source \<Rightarrow> string option \<times> source" where
  "draw src =
     (if failing src (draws src) then None else Some (put_nat (draws src)),
      src\<lparr>draws := Suc (draws src)\<rparr>)"

definition Hash_call ::
  "credential_codec \<Rightarrow> source \<Rightarrow> string \<Rightarrow> (util_error + string) \<times> source" where
  "Hash_call cc src plaintext = (Hash cc (fst (draw src)) plaintext, snd (draw src))"

fun Hash_calls :: "credential_codec \<Rightarrow> source \<Rightarrow> string list \<Rightarrow> (util_error + string) list" where
  "Hash_calls cc src [] = []"
| "Hash_calls cc src (p # ps) =
     fst (Hash_call cc src p) # Hash_calls cc (snd (Hash_call cc src p)) ps"

section \<open>Sequences of operations\<close>

datatype op =
    OpRegister io RegisterRequest
  | OpLogin io LoginRequest
  | OpGetUserByID io string
  | OpValidateToken io string

text \<open>Of the four operations of the service only \<open>Register\<close> writes to the store.\<close>

fun step :: "util \<Rightarrow> userService \<Rightarrow> op \<Rightarrow> gormDB \<Rightarrow> gormDB" where
  "step U s (OpRegister w req) db = snd (userService_Register U s w req db)"
| "step U s (OpLogin w req) db = db"
| "step U s (OpGetUserByID w id') db = db"
| "step U s (OpValidateToken w token) db = db"

fun run :: "util \<Rightarrow> userService \<Rightarrow> op list \<Rightarrow> gormDB \<Rightarrow> gormDB" where
  "run U s [] db = db"
| "run U s (x # xs) db = run U s xs (step U s x db)"

definition unique_emails :: "gormDB \<Rightarrow> bool" where
  "unique_emails db = distinct (map Email (rows db))"

section \<open>Test data\<close>

text \<open>
  Two small codecs in the manner of test doubles, an account and what calls draw from the
  world (\<open>at t\<close>: a call at time \<open>t\<close>; \<open>dry\<close>: the entropy source fails; \<open>down\<close>: the
  store is unreachable), on which the theorems below are exercised. The digest and the
  signature are concatenations and the framings are tables of a few known texts.
\<close>

definition test_credential_codec :: credential_codec where
  "test_credential_codec =
     \<lparr>cost = 10,
      accepted = (\<lambda>c. 4 \<le> c \<and> c \<le> 31),
      digest = (\<lambda>c salt p. Some (salt @ p)),
      frame_hash = (\<lambda>x. if x = (10, ''s1'', ''s1secret1'') then ''hash-1''
                         else if x = (10, ''s2'', ''s2secret1'') then ''hash-2''
                         else ''hash-0''),
      unframe_hash = (\<lambda>h. if h = ''hash-1'' then Some (10, ''s1'', ''s1secret1'')
                           else if h = ''hash-2'' then Some (10, ''s2'', ''s2secret1'')
                           else if h = ''hash-3'' then Some (99, ''s1'', ''s1secret1'')
                           else None)\<rparr>"

definition test_claims :: Claims where
  "test_claims = \<lparr>UserID = ''u1'', ClaimEmail = ''a@x.com'', IssuedAt = 1000, ExpiresAt = 4600\<rparr>"

definition test_token_codec :: token_codec where
  "test_token_codec =
     \<lparr>lifetime = 3600,
      mac = (\<lambda>k c. Some (k @ UserID c)),
      frame_token = (\<lambda>x. if x = (test_claims, ''k1u1'') then ''token-1''
                          else if x = (test_claims, ''k2u1'') then ''token-2''
                          else ''token-0''),
      unframe_token = (\<lambda>t. if t = ''token-1'' then Some (test_claims, ''k1u1'')
                            else if t = ''token-2'' then Some (test_claims, ''k2u1'')
                            else None)\<rparr>"

definition test_util :: util where
  "test_util = codec_util test_credential_codec test_token_codec"

definition test_service :: userService where
  "test_service = \<lparr>jwtSecret = ''k1''\<rparr>"

definition ann :: User where
  "ann = \<lparr>ID = ''u1'', Email = ''a@x.com'', Name = ''Ann'', Password = ''hash-1'',
          CreatedAt = 1000, UpdatedAt = 1000\<rparr>"

definition test_db :: gormDB where
  "test_db = \<lparr>rows = [ann]\<rparr>"

definition at :: "time \<Rightarrow> io" where
  "at t = \<lparr>now = t, uuid = ''u1'', entropy = Some ''s1'', fault = None\<rparr>"

definition dry :: io where
  "dry = \<lparr>now = 3000, uuid = ''u9'', entropy = None, fault = None\<rparr>"

definition down :: io where
  "down = \<lparr>now = 3000, uuid = ''u9'', entropy = Some ''s1'', fault = Some ''connection refused''\<rparr>"






definition test_spec_credential_codec :: credential_codec where
  "test_spec_credential_codec = spec_credential_codec 10 (\<lambda>c. False) (\<lambda>c salt p. Some (salt @ p))"

definition source_at :: "nat \<Rightarrow> source" where
  "source_at n = \<lparr>draws = n, failing = (\<lambda>k. False)\<rparr>"

definition hash_at :: "nat \<Rightarrow> string" where
  "hash_at n = put_field (put_nat 10) (put_field (put_nat n) (put_nat n @ ''secret1''))"

definition register_ann :: RegisterRequest where
  "register_ann = \<lparr>RegEmail = ''a@x.com'', RegName = ''Ann'', RegPassword = ''secret1''\<rparr>"

definition login_ann :: "string \<Rightarrow> LoginRequest" where
  "login_ann p = \<lparr>LoginEmail = ''a@x.com'', LoginPassword = p\<rparr>"

section \<open>Evaluation on the test data\<close>

lemmas test_defs =
  test_util_def codec_util_def test_credential_codec_def test_token_codec_def test_claims_def
  test_service_def ann_def test_db_def at_def dry_def down_def register_ann_def login_ann_def

lemmas codec_defs = Hash_def Verify_def Issue_def Decode_def new_claims_def

lemmas store_defs =
  userRepository_Create_def userRepository_GetByID_def userRepository_GetByEmail_def
  gorm_Create_def gorm_First_def autoTime_def BeforeCreate_def violates_def

lemma test_register_fresh:
  "userService_Register test_util test_service (at 1000) register_ann \<lparr>rows = []\<rparr>
     = (Inr (ann\<lparr>Password := []\<rparr>), test_db)"
  by (simp add: userService_Register_def test_defs codec_defs store_defs Let_def)

lemma test_register_again:
  "userService_Register test_util test_service (at 2000) register_ann test_db
     = (Inl ErrDuplicateEmail, test_db)"
  by (simp add: userService_Register_def test_defs codec_defs store_defs Let_def)

lemma test_login_ok:
  "userService_Login test_util test_service (at 1000) (login_ann ''secret1'') test_db
     = Inr \<lparr>RespToken = ''token-1'', RespUser = ann\<lparr>Password := []\<rparr>\<rparr>"
  by (simp add: userService_Login_def test_defs codec_defs store_defs Let_def)

lemma test_login_wrong_password:
  "userService_Login test_util test_service (at 1000) (login_ann ''wrong'') test_db
     = Inl ErrInvalidCredentials"
  by (simp add: userService_Login_def test_defs codec_defs store_defs Let_def)

lemma test_login_unknown_email:
  "userService_Login test_util test_service (at 1000) (login_ann ''secret1'') \<lparr>rows = []\<rparr>
     = Inl ErrInvalidCredentials"
  by (simp add: userService_Login_def test_defs codec_defs store_defs Let_def)

lemma test_get_ok:
  "userService_GetUserByID test_service (at 1000) ''u1'' test_db = Inr (ann\<lparr>Password := []\<rparr>)"
  by (simp add: userService_GetUserByID_def test_defs store_defs)

lemma test_get_unknown:
  "userService_GetUserByID test_service (at 1000) ''u2'' test_db = Inl ErrUserNotFound"
  by (simp add: userService_GetUserByID_def test_defs store_defs)

lemma test_validate:
  "userService_ValidateToken test_util test_service (at 1500) ''token-1'' = Inr ''u1''"
  "userService_ValidateToken test_util test_service (at 5000) ''garbage'' = Inl (Util Malformed)"
  "userService_ValidateToken test_util test_service (at 5000) ''token-2'' = Inl (Util SignatureInvalid)"
  "userService_ValidateToken test_util test_service (at 5000) ''token-1'' = Inl (Util Expired)"
  by (simp_all add: userService_ValidateToken_def test_defs codec_defs)

section \<open>The RPC handler of token validation\<close>

text \<open>
  Claim C9. The handler \<^verbatim>\<open>GRPCHandler.ValidateToken\<close> never returns a transport-level error:
  for every request it returns a response. An empty token gives \<open>Valid = False\<close> with the
  fixed message, a failure of the service gives \<open>Valid = False\<close> with the text of the
  service's error as message, and a success gives \<open>Valid = True\<close> with the subject
  identifier.
\<close>

theorem rpc_validate_token_always_responds:
  "(\<exists>resp. GRPCHandler_ValidateToken describe validateToken token = Inr resp)
   \<and> (token = [] \<longrightarrow>
        GRPCHandler_ValidateToken describe validateToken token
          = Inr \<lparr>Valid = False, UserId = [], Message = ''token is required''\<rparr>)
   \<and> (\<forall>err. token \<noteq> [] \<and> validateToken token = Inl err \<longrightarrow>
        GRPCHandler_ValidateToken describe validateToken token
          = Inr \<lparr>Valid = False, UserId = [], Message = Error describe err\<rparr>)
   \<and> (\<forall>userID. token \<noteq> [] \<and> validateToken token = Inr userID \<longrightarrow>
        GRPCHandler_ValidateToken describe validateToken token
          = Inr \<lparr>Valid = True, UserId = userID, Message = ''token is valid''\<rparr>)"
  by (simp add: GRPCHandler_ValidateToken_def split: sum.split)

theorem rpc_validate_token_always_responds_witness:
  "GRPCHandler_ValidateToken (\<lambda>e. ''token error'')
       (userService_ValidateToken test_util test_service (at 5000)) []
     = Inr \<lparr>Valid = False, UserId = [], Message = ''token is required''\<rparr>
   \<and> userService_ValidateToken test_util test_service (at 5000) ''token-1'' = Inl (Util Expired)
   \<and> GRPCHandler_ValidateToken (\<lambda>e. ''token error'')
       (userService_ValidateToken test_util test_service (at 5000)) ''token-1''
     = Inr \<lparr>Valid = False, UserId = [], Message = ''token error''\<rparr>
   \<and> userService_ValidateToken test_util test_service (at 1500) ''token-1'' = Inr ''u1''
   \<and> GRPCHandler_ValidateToken (\<lambda>e. ''token error'')
       (userService_ValidateToken test_util test_service (at 1500)) ''token-1''
     = Inr \<lparr>Valid = True, UserId = ''u1'', Message = ''token is valid''\<rparr>"
  using
    rpc_validate_token_always_responds
      [of "\<lambda>e. ''token error''" "userService_ValidateToken test_util test_service (at 5000)" "[]"]
    rpc_validate_token_always_responds
      [of "\<lambda>e. ''token error''" "userService_ValidateToken test_util test_service (at 5000)"
          "''token-1''"]
    rpc_validate_token_always_responds
      [of "\<lambda>e. ''token error''" "userService_ValidateToken test_util test_service (at 1500)"
          "''token-1''"]
    test_validate(1) test_validate(4)
  by simp

section \<open>Configuration loading\<close>

lemma getEnv_empty_iff:
  "getEnv env key [] = [] \<longleftrightarrow> env key = None \<or> env key = Some []"
  by (auto simp: getEnv_def os_Getenv_def Let_def split: option.splits)

lemma getEnv_default:
  "env key = None \<or> env key = Some [] \<Longrightarrow> getEnv env key d = d"
  by (auto simp: getEnv_def os_Getenv_def Let_def)

lemma Load_fails_iff:
  "(\<exists>err. Load dotenv env0 = Inl err)
     \<longleftrightarrow> getEnv (godotenv_Load dotenv env0) ''DATABASE_URL'' [] = []"
  by (simp add: Load_def Let_def)

text \<open>
  Claim C10. \<^verbatim>\<open>config.Load\<close> fails if and only if \<^verbatim>\<open>DATABASE_URL\<close> resolves to the empty
  string, that is, when the environment that \<^verbatim>\<open>getEnv\<close> reads does not set it or sets it to
  the empty string; the error is then the one of the source. When \<^verbatim>\<open>JWT_SECRET\<close> is unset or
  empty there, loading does not fail for that reason: the secret of the configuration is
  the fixed default text.
\<close>

theorem config_load_fails_iff_no_database_url:
  "((\<exists>err. Load dotenv env0 = Inl err)
      \<longleftrightarrow> getEnv (godotenv_Load dotenv env0) ''DATABASE_URL'' [] = [])
   \<and> (getEnv (godotenv_Load dotenv env0) ''DATABASE_URL'' [] = []
      \<longleftrightarrow> godotenv_Load dotenv env0 ''DATABASE_URL'' = None
          \<or> godotenv_Load dotenv env0 ''DATABASE_URL'' = Some [])
   \<and> (getEnv (godotenv_Load dotenv env0) ''DATABASE_URL'' [] = []
      \<longrightarrow> Load dotenv env0 = Inl (New ''DATABASE_URL is required''))
   \<and> (getEnv (godotenv_Load dotenv env0) ''DATABASE_URL'' [] \<noteq> []
       \<and> (godotenv_Load dotenv env0 ''JWT_SECRET'' = None
          \<or> godotenv_Load dotenv env0 ''JWT_SECRET'' = Some [])
      \<longrightarrow> (\<exists>cfg. Load dotenv env0 = Inr cfg
             \<and> JWTSecret cfg = ''your-secret-key-change-in-production''))"
proof (intro conjI impI)
  show "(\<exists>err. Load dotenv env0 = Inl err)
      \<longleftrightarrow> getEnv (godotenv_Load dotenv env0) ''DATABASE_URL'' [] = []"
    by (rule Load_fails_iff)
  show "getEnv (godotenv_Load dotenv env0) ''DATABASE_URL'' [] = []
      \<longleftrightarrow> godotenv_Load dotenv env0 ''DATABASE_URL'' = None
          \<or> godotenv_Load dotenv env0 ''DATABASE_URL'' = Some []"
    by (rule getEnv_empty_iff)
  show "Load dotenv env0 = Inl (New ''DATABASE_URL is required'')"
    if "getEnv (godotenv_Load dotenv env0) ''DATABASE_URL'' [] = []"
    using that by (simp add: Load_def Let_def)
  show "\<exists>cfg. Load dotenv env0 = Inr cfg \<and> JWTSecret cfg = ''your-secret-key-change-in-production''"
    if "getEnv (godotenv_Load dotenv env0) ''DATABASE_URL'' [] \<noteq> []
       \<and> (godotenv_Load dotenv env0 ''JWT_SECRET'' = None
          \<or> godotenv_Load dotenv env0 ''JWT_SECRET'' = Some [])"
    using that getEnv_default[of "godotenv_Load dotenv env0" "''JWT_SECRET''"]
    by (simp add: Load_def Let_def)
qed

lemma test_load:
  "Load None [''DATABASE_URL'' \<mapsto> ''postgres://db'', ''JWT_SECRET'' \<mapsto> []]
     = Inr \<lparr>DatabaseURL = ''postgres://db'', JWTSecret = ''your-secret-key-change-in-production'',
            HTTPPort = ''8080'', GRPCPort = ''50051'', Environment = ''development''\<rparr>"
  "Load (Some [''DATABASE_URL'' \<mapsto> ''postgres://file'']) [''DATABASE_URL'' \<mapsto> []]
     = Inl (New ''DATABASE_URL is required'')"
  by (simp_all add: Load_def Let_def getEnv_def os_Getenv_def godotenv_Load_def map_add_def)

theorem config_load_fails_iff_no_database_url_witness:
  "Load (Some [''DATABASE_URL'' \<mapsto> ''postgres://file'']) [''DATABASE_URL'' \<mapsto> []]
     = Inl (New ''DATABASE_URL is required'')
   \<and> getEnv (godotenv_Load None [''DATABASE_URL'' \<mapsto> ''postgres://db'', ''JWT_SECRET'' \<mapsto> []])
        ''DATABASE_URL'' [] \<noteq> []
   \<and> godotenv_Load None [''DATABASE_URL'' \<mapsto> ''postgres://db'', ''JWT_SECRET'' \<mapsto> []]
        ''JWT_SECRET'' = Some []
   \<and> (\<exists>cfg. Load None [''DATABASE_URL'' \<mapsto> ''postgres://db'', ''JWT_SECRET'' \<mapsto> []] = Inr cfg
          \<and> JWTSecret cfg = ''your-secret-key-change-in-production'')"
  using
    config_load_fails_iff_no_database_url
      [of "Some [''DATABASE_URL'' \<mapsto> ''postgres://file'']" "[''DATABASE_URL'' \<mapsto> []]"]
    config_load_fails_iff_no_database_url
      [of None "[''DATABASE_URL'' \<mapsto> ''postgres://db'', ''JWT_SECRET'' \<mapsto> []]"]
  by (simp add: getEnv_def os_Getenv_def godotenv_Load_def map_add_def)

section \<open>What the service returns\<close>

lemma Register_success:
  assumes "userService_Register U s w req db = (Inr u, db')"
  shows "Password u = []"
  using assms
  by (auto simp: userService_Register_def Let_def
           split: sum.splits prod.splits option.splits if_splits)

lemma Login_success:
  assumes "userService_Login U s w req db = Inr r"
  shows "Password (RespUser r) = []"
    and "GenerateJWT U (now w) (ID (RespUser r)) (Email (RespUser r)) (jwtSecret s)
           = Inr (RespToken r)"
  using assms
  by (auto simp: userService_Login_def split: sum.splits if_splits)

lemma GetUserByID_success:
  assumes "userService_GetUserByID s w i db = Inr u"
  shows "Password u = []"
  using assms
  by (auto simp: userService_GetUserByID_def split: sum.splits)

text \<open>
  Claim C3. Every successful call of \<open>Register\<close>, \<open>Login\<close> or \<open>GetUserByID\<close> returns an
  account whose password field is empty; the token that \<open>Login\<close> returns besides is made
  from the identifier and the email of the account, the secret and the clock, not from the
  stored hash.
\<close>

theorem returned_account_has_no_password:
  "(\<forall>u db'. userService_Register U s w req db = (Inr u, db') \<longrightarrow> Password u = [])
   \<and> (\<forall>r. userService_Login U s w lreq db = Inr r \<longrightarrow>
          Password (RespUser r) = []
          \<and> GenerateJWT U (now w) (ID (RespUser r)) (Email (RespUser r)) (jwtSecret s)
              = Inr (RespToken r))
   \<and> (\<forall>u. userService_GetUserByID s w i db = Inr u \<longrightarrow> Password u = [])"
proof (intro conjI allI impI)
  show "Password u = []" if "userService_Register U s w req db = (Inr u, db')" for u db'
    using that by (rule Register_success)
  show "Password (RespUser r) = []" if "userService_Login U s w lreq db = Inr r" for r
    using that by (rule Login_success(1))
  show "GenerateJWT U (now w) (ID (RespUser r)) (Email (RespUser r)) (jwtSecret s)
          = Inr (RespToken r)"
    if "userService_Login U s w lreq db = Inr r" for r
    using that by (rule Login_success(2))
  show "Password u = []" if "userService_GetUserByID s w i db = Inr u" for u
    using that by (rule GetUserByID_success)
qed

theorem returned_account_has_no_password_witness:
  "userService_Register test_util test_service (at 1000) register_ann \<lparr>rows = []\<rparr>
     = (Inr (ann\<lparr>Password := []\<rparr>), test_db)
   \<and> userService_Login test_util test_service (at 1000) (login_ann ''secret1'') test_db
     = Inr \<lparr>RespToken = ''token-1'', RespUser = ann\<lparr>Password := []\<rparr>\<rparr>
   \<and> userService_GetUserByID test_service (at 1000) ''u1'' test_db = Inr (ann\<lparr>Password := []\<rparr>)
   \<and> Password ann = ''hash-1''
   \<and> Password (ann\<lparr>Password := []\<rparr>) = []"
  using
    returned_account_has_no_password
      [of test_util test_service "at 1000" register_ann "\<lparr>rows = []\<rparr>"
          "login_ann ''secret1''" "''u1''"]
    test_register_fresh test_login_ok test_get_ok
  by (simp add: ann_def)

section \<open>Login failures\<close>

lemma GetByEmail_absent:
  assumes "fault w = None" and "email \<notin> Email ` set (rows db)"
  shows "userRepository_GetByEmail w email db = Inl ErrUserNotFound"
proof -
  have "find (\<lambda>u. Email u = email) (rows db) = None"
    using assms(2) by (auto simp: find_None_iff)
  then show ?thesis
    using assms(1) by (simp add: userRepository_GetByEmail_def gorm_First_def)
qed

lemma GetByEmail_present:
  assumes "fault w = None" and "find (\<lambda>u. Email u = email) (rows db) = Some u"
  shows "userRepository_GetByEmail w email db = Inr u"
  using assms by (simp add: userRepository_GetByEmail_def gorm_First_def)

lemma GetByEmail_cases:
  "userRepository_GetByEmail w email db = Inl ErrUserNotFound
   \<or> (\<exists>m. userRepository_GetByEmail w email db = Inl (Gorm (DriverError m)))
   \<or> (\<exists>u. userRepository_GetByEmail w email db = Inr u)"
  by (auto simp: userRepository_GetByEmail_def gorm_First_def split: option.splits)

lemma Login_error_shape:
  assumes "userService_Login U s w req db = Inl e"
  shows "e = ErrInvalidCredentials
       \<or> (\<exists>m. e = Errorf ''failed to get user: '' (Gorm (DriverError m)))
       \<or> (\<exists>x. e = Errorf ''failed to generate token: '' (Util x))"
  using assms GetByEmail_cases[of w "LoginEmail req" db]
  by (auto simp: userService_Login_def split: sum.splits if_splits)

lemma Login_wrong_password:
  assumes "fault w = None"
    and "find (\<lambda>u. Email u = LoginEmail req) (rows db) = Some u"
    and "\<not> CheckPassword U (LoginPassword req) (Password u)"
  shows "userService_Login U s w req db = Inl ErrInvalidCredentials"
  using GetByEmail_present[OF assms(1,2)] assms(3) by (simp add: userService_Login_def)

lemma HTTP_Login_status:
  "fst (HTTPHandler_Login login bound) \<in> {200, 400, 401, 500}"
  by (auto simp: HTTPHandler_Login_def split: sum.splits)

lemma Login_not_found:
  assumes "userRepository_GetByEmail w (LoginEmail req) db = Inl ErrUserNotFound"
  shows "userService_Login U s w req db = Inl ErrInvalidCredentials"
  using assms by (simp add: userService_Login_def)

lemma Login_rejected:
  assumes "userRepository_GetByEmail w (LoginEmail req) db = Inr u"
    and "\<not> CheckPassword U (LoginPassword req) (Password u)"
  shows "userService_Login U s w req db = Inl ErrInvalidCredentials"
  using assms by (simp add: userService_Login_def)

text \<open>
  Claim C2. A login whose email the directory does not find fails with
  \<open>ErrInvalidCredentials\<close>, and so does a login whose email it finds and whose password does
  not verify: the same error value, rendered by the HTTP handler as the same response.
  (A store that answers does not find an email that no row holds and finds the row of an
  email that a row holds.) No login fails with \<open>ErrUserNotFound\<close>, bare or wrapped, and the
  HTTP handler of the login never answers 404.
\<close>

theorem login_failures_are_invalid_credentials:
  "(userRepository_GetByEmail w (LoginEmail req) db = Inl ErrUserNotFound \<longrightarrow>
      userService_Login U s w req db = Inl ErrInvalidCredentials)
   \<and> (\<forall>u. userRepository_GetByEmail w (LoginEmail req) db = Inr u
          \<and> \<not> CheckPassword U (LoginPassword req) (Password u) \<longrightarrow>
      userService_Login U s w req db = Inl ErrInvalidCredentials)
   \<and> (fault w = None \<and> LoginEmail req \<notin> Email ` set (rows db) \<longrightarrow>
      userRepository_GetByEmail w (LoginEmail req) db = Inl ErrUserNotFound)
   \<and> (\<forall>u. fault w = None \<and> find (\<lambda>u. Email u = LoginEmail req) (rows db) = Some u \<longrightarrow>
      userRepository_GetByEmail w (LoginEmail req) db = Inr u)
   \<and> (\<forall>e. userService_Login U s w req db = Inl e \<longrightarrow>
          e \<noteq> ErrUserNotFound \<and> \<not> errors_Is e ErrUserNotFound)
   \<and> (userService_Login U s w req db = Inl ErrInvalidCredentials \<longrightarrow>
        HTTPHandler_Login (\<lambda>r. userService_Login U s w r db) (Inr req)
          = (401, ErrorResponse ''Invalid email or password''))
   \<and> fst (HTTPHandler_Login (\<lambda>r. userService_Login U s w r db) bound) \<noteq> 404"
proof (intro conjI allI impI)
  show "userService_Login U s w req db = Inl ErrInvalidCredentials"
    if "userRepository_GetByEmail w (LoginEmail req) db = Inl ErrUserNotFound"
    using that by (rule Login_not_found)
  show "userService_Login U s w req db = Inl ErrInvalidCredentials"
    if "userRepository_GetByEmail w (LoginEmail req) db = Inr u
          \<and> \<not> CheckPassword U (LoginPassword req) (Password u)" for u
    using that Login_rejected by blast
  show "userRepository_GetByEmail w (LoginEmail req) db = Inl ErrUserNotFound"
    if "fault w = None \<and> LoginEmail req \<notin> Email ` set (rows db)"
    using that GetByEmail_absent by blast
  show "userRepository_GetByEmail w (LoginEmail req) db = Inr u"
    if "fault w = None \<and> find (\<lambda>u. Email u = LoginEmail req) (rows db) = Some u" for u
    using that GetByEmail_present by blast
  show "e \<noteq> ErrUserNotFound" and "\<not> errors_Is e ErrUserNotFound"
    if "userService_Login U s w req db = Inl e" for e
    using Login_error_shape[OF that] by auto
  show "HTTPHandler_Login (\<lambda>r. userService_Login U s w r db) (Inr req)
          = (401, ErrorResponse ''Invalid email or password'')"
    if "userService_Login U s w req db = Inl ErrInvalidCredentials"
    using that by (simp add: HTTPHandler_Login_def)
  show "fst (HTTPHandler_Login (\<lambda>r. userService_Login U s w r db) bound) \<noteq> 404"
    using HTTP_Login_status[of "\<lambda>r. userService_Login U s w r db" bound] by auto
qed

theorem login_failures_are_invalid_credentials_witness:
  "fault (at 1000) = None
   \<and> LoginEmail (login_ann ''secret1'') \<notin> Email ` set (rows \<lparr>rows = []\<rparr>)
   \<and> userRepository_GetByEmail (at 1000) (LoginEmail (login_ann ''secret1'')) \<lparr>rows = []\<rparr>
       = Inl ErrUserNotFound
   \<and> userService_Login test_util test_service (at 1000) (login_ann ''secret1'') \<lparr>rows = []\<rparr>
       = Inl ErrInvalidCredentials
   \<and> find (\<lambda>u. Email u = LoginEmail (login_ann ''wrong'')) (rows test_db) = Some ann
   \<and> userRepository_GetByEmail (at 1000) (LoginEmail (login_ann ''wrong'')) test_db = Inr ann
   \<and> \<not> CheckPassword test_util (LoginPassword (login_ann ''wrong'')) (Password ann)
   \<and> userService_Login test_util test_service (at 1000) (login_ann ''wrong'') test_db
       = Inl ErrInvalidCredentials
   \<and> HTTPHandler_Login (\<lambda>r. userService_Login test_util test_service (at 1000) r test_db)
         (Inr (login_ann ''wrong''))
       = (401, ErrorResponse ''Invalid email or password'')"
proof -
  have a: "fault (at 1000) = None
      \<and> LoginEmail (login_ann ''secret1'') \<notin> Email ` set (rows \<lparr>rows = []\<rparr>)"
    by (simp add: at_def)
  have b: "find (\<lambda>u. Email u = LoginEmail (login_ann ''wrong'')) (rows test_db) = Some ann
      \<and> \<not> CheckPassword test_util (LoginPassword (login_ann ''wrong'')) (Password ann)"
    by (simp add: test_defs Verify_def)
  show ?thesis
    using a b
      login_failures_are_invalid_credentials
        [of "at 1000" "login_ann ''secret1''" "\<lparr>rows = []\<rparr>" test_util test_service]
      login_failures_are_invalid_credentials
        [of "at 1000" "login_ann ''wrong''" test_db test_util test_service]
    by blast
qed

section \<open>Token validation\<close>

text \<open>
  Claim C1, as amended. \<open>ValidateToken\<close> fails exactly when the decoding fails, and then
  with the very error that \<^verbatim>\<open>util.ValidateJWT\<close> returned: it merges nothing. The RPC handler
  puts the text of that error into the message of its response.
\<close>

theorem validate_token_returns_decode_error:
  "(\<forall>e. ValidateJWT U (now w) token (jwtSecret s) = Inl e \<longrightarrow>
        userService_ValidateToken U s w token = Inl (Util e))
   \<and> (\<forall>c. ValidateJWT U (now w) token (jwtSecret s) = Inr c \<longrightarrow>
        userService_ValidateToken U s w token = Inr (UserID c))
   \<and> (\<forall>e. token \<noteq> [] \<and> ValidateJWT U (now w) token (jwtSecret s) = Inl e \<longrightarrow>
        GRPCHandler_ValidateToken describe (userService_ValidateToken U s w) token
          = Inr \<lparr>Valid = False, UserId = [], Message = describe e\<rparr>)"
  by (simp add: userService_ValidateToken_def GRPCHandler_ValidateToken_def)

theorem validate_token_returns_decode_error_witness:
  "ValidateJWT test_util (now (at 5000)) ''token-1'' (jwtSecret test_service) = Inl Expired
   \<and> userService_ValidateToken test_util test_service (at 5000) ''token-1'' = Inl (Util Expired)
   \<and> ValidateJWT test_util (now (at 1500)) ''token-1'' (jwtSecret test_service) = Inr test_claims
   \<and> userService_ValidateToken test_util test_service (at 1500) ''token-1''
       = Inr (UserID test_claims)
   \<and> GRPCHandler_ValidateToken (\<lambda>e. ''token error'')
         (userService_ValidateToken test_util test_service (at 5000)) ''token-1''
       = Inr \<lparr>Valid = False, UserId = [], Message = ''token error''\<rparr>"
proof -
  have a: "ValidateJWT test_util (now (at 5000)) ''token-1'' (jwtSecret test_service) = Inl Expired"
    by (simp add: test_defs codec_defs)
  have b: "ValidateJWT test_util (now (at 1500)) ''token-1'' (jwtSecret test_service)
             = Inr test_claims"
    by (simp add: test_defs codec_defs)
  show ?thesis
    using a b
      validate_token_returns_decode_error
        [of test_util "at 5000" "''token-1''" test_service "\<lambda>e. ''token error''"]
      validate_token_returns_decode_error
        [of test_util "at 1500" "''token-1''" test_service "\<lambda>e. ''token error''"]
    by simp
qed

text \<open>
  Claim C1 as stated fails: with the decoder of the specification, a malformed token, a
  token with a wrong signature and an expired token make \<open>ValidateToken\<close> fail with three
  different errors.
\<close>

theorem validate_token_single_kind_counterexample:
  "userService_ValidateToken test_util test_service (at 5000) ''garbage'' = Inl (Util Malformed)
   \<and> userService_ValidateToken test_util test_service (at 5000) ''token-2''
       = Inl (Util SignatureInvalid)
   \<and> userService_ValidateToken test_util test_service (at 5000) ''token-1'' = Inl (Util Expired)
   \<and> userService_ValidateToken test_util test_service (at 5000) ''garbage''
       \<noteq> userService_ValidateToken test_util test_service (at 5000) ''token-1''"
  by (simp add: test_validate)

section \<open>Status codes of the HTTP transport\<close>

lemma gorm_Create_error:
  assumes "gorm_Create w u db = ((Some e, u'), db')"
  shows "db' = db \<and> (e = ErrDuplicatedKey \<or> (\<exists>m. e = DriverError m))"
  using assms by (auto simp: gorm_Create_def Let_def split: option.splits if_splits)

lemma repository_Create_error:
  assumes "userRepository_Create w u db = ((Some e, u'), db')"
  shows "db' = db \<and> (e = ErrDuplicateEmail \<or> (\<exists>m. e = Gorm (DriverError m)))"
proof (cases "gorm_Create w u db")
  case (Pair a b)
  then show ?thesis
    using assms gorm_Create_error[of w u db _ "snd a" b]
    by (cases a) (auto simp: userRepository_Create_def split: option.splits if_splits)
qed

lemma Register_error_shape:
  assumes "userService_Register U s w req db = (Inl e, db')"
  shows "db' = db
       \<and> (e = ErrDuplicateEmail
          \<or> (\<exists>x. e = Errorf ''failed to hash password: '' (Util x))
          \<or> (\<exists>m. e = Errorf ''failed to create user: '' (Gorm (DriverError m))))"
proof (cases "HashPassword U (entropy w) (RegPassword req)")
  case (Inl x)
  then show ?thesis
    using assms by (auto simp: userService_Register_def)
next
  case (Inr h)
  define user where "user = \<lparr>ID = [], Email = RegEmail req, Name = RegName req,
                       Password = h, CreatedAt = 0, UpdatedAt = 0\<rparr>"
  obtain r u' d where c: "userRepository_Create w user db = ((r, u'), d)"
    by (metis surj_pair)
  show ?thesis
  proof (cases r)
    case None
    then show ?thesis
      using assms Inr c by (simp add: userService_Register_def user_def)
  next
    case (Some x)
    with c repository_Create_error[of w user db x u' d]
    show ?thesis
      using assms Inr by (auto simp: userService_Register_def user_def)
  qed
qed

lemma GetUserByID_error_shape:
  assumes "userService_GetUserByID s w i db = Inl e"
  shows "e = ErrUserNotFound \<or> (\<exists>m. e = Gorm (DriverError m))"
  using assms
  by (auto simp: userService_GetUserByID_def userRepository_GetByID_def gorm_First_def
           split: sum.splits option.splits if_splits)

text \<open>
  Claim C7. The HTTP handlers render the errors of the service as the specification says:
  \<open>ErrDuplicateEmail\<close> as 409, \<open>ErrInvalidCredentials\<close> as 401, \<open>ErrUserNotFound\<close> as 404 and
  every other error as 500 (this is \<open>facade_status\<close>), and a request that could not be bound
  as 400.
\<close>

theorem http_status_of_service_errors:
  "(\<forall>msg. fst (fst (HTTPHandler_Register (userService_Register U s w) (Inl msg) db)) = 400)
   \<and> (\<forall>msg. fst (HTTPHandler_Login (\<lambda>r. userService_Login U s w r db) (Inl msg)) = 400)
   \<and> (\<forall>e db'. userService_Register U s w req db = (Inl e, db') \<longrightarrow>
         fst (fst (HTTPHandler_Register (userService_Register U s w) (Inr req) db))
           = facade_status e)
   \<and> (\<forall>e. userService_Login U s w lreq db = Inl e \<longrightarrow>
         fst (HTTPHandler_Login (\<lambda>r. userService_Login U s w r db) (Inr lreq))
           = facade_status e)
   \<and> (\<forall>e. userService_GetUserByID s w i db = Inl e \<longrightarrow>
         fst (HTTPHandler_GetUser (\<lambda>j. userService_GetUserByID s w j db) i)
           = facade_status e)
   \<and> facade_status ErrDuplicateEmail = 409
   \<and> facade_status ErrInvalidCredentials = 401
   \<and> facade_status ErrUserNotFound = 404"
proof (intro conjI allI impI)
  show "fst (fst (HTTPHandler_Register (userService_Register U s w) (Inl msg) db)) = 400" for msg
    by (simp add: HTTPHandler_Register_def)
  show "fst (HTTPHandler_Login (\<lambda>r. userService_Login U s w r db) (Inl msg)) = 400" for msg
    by (simp add: HTTPHandler_Login_def)
  show "fst (fst (HTTPHandler_Register (userService_Register U s w) (Inr req) db))
          = facade_status e"
    if "userService_Register U s w req db = (Inl e, db')" for e db'
    using that Register_error_shape[OF that]
    by (auto simp: HTTPHandler_Register_def facade_status_def)
  show "fst (HTTPHandler_Login (\<lambda>r. userService_Login U s w r db) (Inr lreq)) = facade_status e"
    if "userService_Login U s w lreq db = Inl e" for e
    using that Login_error_shape[OF that]
    by (auto simp: HTTPHandler_Login_def facade_status_def)
  show "fst (HTTPHandler_GetUser (\<lambda>j. userService_GetUserByID s w j db) i) = facade_status e"
    if "userService_GetUserByID s w i db = Inl e" for e
    using that GetUserByID_error_shape[OF that]
    by (auto simp: HTTPHandler_GetUser_def facade_status_def)
qed (simp_all add: facade_status_def)

lemma test_store_down:
  "userService_GetUserByID test_service down ''u1'' test_db
     = Inl (Gorm (DriverError ''connection refused''))"
  "userService_Register test_util test_service down register_ann test_db
     = (Inl (Errorf ''failed to create user: '' (Gorm (DriverError ''connection refused''))), test_db)"
  "userService_Register test_util test_service dry register_ann test_db
     = (Inl (Errorf ''failed to hash password: '' (Util HashingFailure)), test_db)"
  by (simp_all add: userService_GetUserByID_def userService_Register_def test_defs codec_defs
        store_defs Let_def)

theorem http_status_of_service_errors_witness:
  "userService_Register test_util test_service (at 2000) register_ann test_db
     = (Inl ErrDuplicateEmail, test_db)
   \<and> fst (fst (HTTPHandler_Register (userService_Register test_util test_service (at 2000))
        (Inr register_ann) test_db)) = 409
   \<and> userService_Login test_util test_service (at 2000) (login_ann ''wrong'') test_db
     = Inl ErrInvalidCredentials
   \<and> fst (HTTPHandler_Login (\<lambda>r. userService_Login test_util test_service (at 2000) r test_db)
        (Inr (login_ann ''wrong''))) = 401
   \<and> userService_GetUserByID test_service (at 2000) ''u2'' test_db = Inl ErrUserNotFound
   \<and> fst (HTTPHandler_GetUser (\<lambda>j. userService_GetUserByID test_service (at 2000) j test_db)
        ''u2'') = 404
   \<and> userService_GetUserByID test_service down ''u1'' test_db
     = Inl (Gorm (DriverError ''connection refused''))
   \<and> fst (HTTPHandler_GetUser (\<lambda>j. userService_GetUserByID test_service down j test_db)
        ''u1'') = 500
   \<and> fst (fst (HTTPHandler_Register (userService_Register test_util test_service (at 2000))
        (Inl ''invalid request'') test_db)) = 400"
proof -
  have a: "userService_Register test_util test_service (at 2000) register_ann test_db
             = (Inl ErrDuplicateEmail, test_db)"
    by (rule test_register_again)
  have b: "userService_Login test_util test_service (at 2000) (login_ann ''wrong'') test_db
             = Inl ErrInvalidCredentials"
    by (simp add: userService_Login_def test_defs codec_defs store_defs)
  have c: "userService_GetUserByID test_service (at 2000) ''u2'' test_db = Inl ErrUserNotFound"
    by (simp add: userService_GetUserByID_def test_defs store_defs)
  have d: "facade_status (Gorm (DriverError ''connection refused'')) = 500"
    by (simp add: facade_status_def)
  show ?thesis
    using a b c d test_store_down(1)
      http_status_of_service_errors
        [of test_util test_service "at 2000" test_db register_ann "login_ann ''wrong''" "''u2''"]
      http_status_of_service_errors
        [of test_util test_service down test_db register_ann "login_ann ''wrong''" "''u1''"]
    by simp
qed

section \<open>Uniqueness of emails\<close>

lemma Email_prepared: "Email (autoTime w (BeforeCreate w u)) = Email u"
  by (simp add: autoTime_def BeforeCreate_def Let_def)

lemma gorm_Create_unique:
  assumes "unique_emails db"
  shows "unique_emails (snd (gorm_Create w u db))"
proof -
  let ?u = "autoTime w (BeforeCreate w u)"
  have "unique_emails (db\<lparr>rows := rows db @ [?u]\<rparr>)" if "\<not> violates ?u db"
    using that assms by (auto simp: unique_emails_def violates_def)
  then show ?thesis
    using assms by (simp add: gorm_Create_def Let_def split: option.splits)
qed

lemma repository_Create_db:
  "snd (userRepository_Create w u db) = snd (gorm_Create w u db)"
  by (cases "gorm_Create w u db")
     (auto simp: userRepository_Create_def split: option.splits prod.splits)

lemma Register_db:
  "snd (userService_Register U s w req db) = db
   \<or> (\<exists>u. snd (userService_Register U s w req db) = snd (userRepository_Create w u db))"
proof (cases "HashPassword U (entropy w) (RegPassword req)")
  case (Inl x)
  then show ?thesis by (simp add: userService_Register_def)
next
  case (Inr h)
  define user where "user = \<lparr>ID = [], Email = RegEmail req, Name = RegName req,
                       Password = h, CreatedAt = 0, UpdatedAt = 0\<rparr>"
  obtain r u' d where c: "userRepository_Create w user db = ((r, u'), d)"
    by (metis surj_pair)
  have "snd (userService_Register U s w req db) = snd (userRepository_Create w user db)"
    using Inr c by (cases r) (simp_all add: userService_Register_def user_def)
  then show ?thesis by blast
qed

lemma Register_unique:
  assumes "unique_emails db"
  shows "unique_emails (snd (userService_Register U s w req db))"
  using Register_db[of U s w req db] assms gorm_Create_unique[OF assms]
  by (auto simp: repository_Create_db)

lemma step_unique:
  assumes "unique_emails db"
  shows "unique_emails (step U s x db)"
  using assms by (cases x) (simp_all add: Register_unique)

lemma run_unique:
  assumes "unique_emails db"
  shows "unique_emails (run U s ops db)"
  using assms by (induction ops arbitrary: db) (simp_all add: step_unique)

lemma gorm_Create_taken:
  assumes "Email u \<in> Email ` set (rows db)"
  shows "fst (fst (gorm_Create w u db)) \<noteq> None \<and> snd (gorm_Create w u db) = db"
    and "fault w = None \<Longrightarrow> fst (fst (gorm_Create w u db)) = Some ErrDuplicatedKey"
proof -
  have "violates (autoTime w (BeforeCreate w u)) db"
    using assms by (auto simp: violates_def Email_prepared)
  then show "fst (fst (gorm_Create w u db)) \<noteq> None \<and> snd (gorm_Create w u db) = db"
    and "fault w = None \<Longrightarrow> fst (fst (gorm_Create w u db)) = Some ErrDuplicatedKey"
    by (auto simp: gorm_Create_def Let_def split: option.splits)
qed

lemma Register_taken:
  assumes "RegEmail req \<in> Email ` set (rows db)"
  shows "\<exists>e. userService_Register U s w req db = (Inl e, db)"
proof (cases "HashPassword U (entropy w) (RegPassword req)")
  case (Inl x)
  then show ?thesis by (simp add: userService_Register_def)
next
  case (Inr h)
  define user where "user = \<lparr>ID = [], Email = RegEmail req, Name = RegName req,
                       Password = h, CreatedAt = 0, UpdatedAt = 0\<rparr>"
  have "Email user \<in> Email ` set (rows db)"
    using assms by (simp add: user_def)
  from gorm_Create_taken(1)[OF this, of w]
  obtain g u' where "gorm_Create w user db = ((Some g, u'), db)"
    by (cases "gorm_Create w user db") auto
  then show ?thesis
    using Inr by (auto simp: userService_Register_def userRepository_Create_def user_def)
qed

lemma Register_duplicate:
  assumes "RegEmail req \<in> Email ` set (rows db)"
    and "HashPassword U (entropy w) (RegPassword req) = Inr h"
    and "fault w = None"
  shows "userService_Register U s w req db = (Inl ErrDuplicateEmail, db)"
proof -
  define user where "user = \<lparr>ID = [], Email = RegEmail req, Name = RegName req,
                       Password = h, CreatedAt = 0, UpdatedAt = 0\<rparr>"
  have "Email user \<in> Email ` set (rows db)"
    using assms(1) by (simp add: user_def)
  from gorm_Create_taken[OF this, of w] assms(3)
  obtain u' where "gorm_Create w user db = ((Some ErrDuplicatedKey, u'), db)"
    by (cases "gorm_Create w user db") auto
  then show ?thesis
    using assms(2) by (simp add: userService_Register_def userRepository_Create_def user_def)
qed

text \<open>
  Claim C6. The emails of the stored accounts are pairwise different after every sequence
  of operations of the service, from the empty store and from every store where they are.
  A \<open>Register\<close> with an email that the store already holds never succeeds and leaves the
  store as it was; when the password was hashed and the store answered, its error is
  the sentinel \<open>ErrDuplicateEmail\<close>, which carries nothing of the existing account, and the
  HTTP handler answers 409 with a fixed text.
\<close>

theorem registered_emails_stay_unique:
  "(unique_emails db \<longrightarrow> unique_emails (run U s ops db))
   \<and> unique_emails (run U s ops \<lparr>rows = []\<rparr>)
   \<and> (RegEmail req \<in> Email ` set (rows db) \<longrightarrow>
        (\<exists>e. userService_Register U s w req db = (Inl e, db)))
   \<and> (\<forall>h. RegEmail req \<in> Email ` set (rows db)
          \<and> HashPassword U (entropy w) (RegPassword req) = Inr h \<and> fault w = None \<longrightarrow>
        userService_Register U s w req db = (Inl ErrDuplicateEmail, db)
        \<and> HTTPHandler_Register (userService_Register U s w) (Inr req) db
            = ((409, ErrorResponse ''Email already exists''), db))"
proof (intro conjI allI impI)
  show "unique_emails (run U s ops db)" if "unique_emails db"
    using that by (rule run_unique)
  show "unique_emails (run U s ops \<lparr>rows = []\<rparr>)"
    by (rule run_unique) (simp add: unique_emails_def)
  show "\<exists>e. userService_Register U s w req db = (Inl e, db)"
    if "RegEmail req \<in> Email ` set (rows db)"
    using that by (rule Register_taken)
  show "userService_Register U s w req db = (Inl ErrDuplicateEmail, db)"
    if "RegEmail req \<in> Email ` set (rows db)
          \<and> HashPassword U (entropy w) (RegPassword req) = Inr h \<and> fault w = None" for h
    using that Register_duplicate by blast
  then show "HTTPHandler_Register (userService_Register U s w) (Inr req) db
            = ((409, ErrorResponse ''Email already exists''), db)"
    if "RegEmail req \<in> Email ` set (rows db)
          \<and> HashPassword U (entropy w) (RegPassword req) = Inr h \<and> fault w = None" for h
    using that by (simp add: HTTPHandler_Register_def)
qed

lemma test_run:
  "run test_util test_service
     [OpRegister (at 1000) register_ann, OpLogin (at 1500) (login_ann ''secret1''),
      OpRegister (at 2000) register_ann] \<lparr>rows = []\<rparr> = test_db"
  by (simp add: test_register_fresh test_register_again)

theorem registered_emails_stay_unique_witness:
  "unique_emails test_db
   \<and> run test_util test_service
       [OpRegister (at 1000) register_ann, OpLogin (at 1500) (login_ann ''secret1''),
        OpRegister (at 2000) register_ann] \<lparr>rows = []\<rparr> = test_db
   \<and> unique_emails (run test_util test_service [OpRegister (at 2000) register_ann] test_db)
   \<and> RegEmail register_ann \<in> Email ` set (rows test_db)
   \<and> HashPassword test_util (entropy (at 2000)) (RegPassword register_ann) = Inr ''hash-1''
   \<and> fault (at 2000) = None
   \<and> userService_Register test_util test_service (at 2000) register_ann test_db
       = (Inl ErrDuplicateEmail, test_db)
   \<and> HTTPHandler_Register (userService_Register test_util test_service (at 2000))
         (Inr register_ann) test_db
       = ((409, ErrorResponse ''Email already exists''), test_db)"
proof -
  have a: "unique_emails test_db"
    by (simp add: unique_emails_def test_defs)
  have b: "RegEmail register_ann \<in> Email ` set (rows test_db)
      \<and> HashPassword test_util (entropy (at 2000)) (RegPassword register_ann) = Inr ''hash-1''
      \<and> fault (at 2000) = None"
    by (simp add: test_defs codec_defs)
  show ?thesis
    using a b test_run
      registered_emails_stay_unique
        [of test_db test_util test_service "[OpRegister (at 2000) register_ann]"
            register_ann "at 2000"]
    by blast
qed

section \<open>Framing\<close>

declare put_nat.simps [simp del]

lemma get_put_field: "get_field (put_field f rest) = Some (f, rest)"
proof (induction f)
  case Nil
  then show ?case by (cases rest) simp_all
next
  case (Cons x xs)
  then show ?case by simp
qed

lemma get_put_nat: "get_nat (put_nat n) = n"
proof (induction n rule: put_nat.induct)
  case (1 n)
  show ?case
  proof (cases "n = 0")
    case True
    then show ?thesis by (simp add: put_nat.simps)
  next
    case False
    with "1" have "get_nat (put_nat (n div 256)) = n div 256" by simp
    with False show ?thesis
      by (subst put_nat.simps) simp
  qed
qed

lemma put_nat_inj: "put_nat m = put_nat n \<Longrightarrow> m = n"
  by (metis get_put_nat)



section \<open>The Credential Codec\<close>

lemma Hash_unframed:
  assumes "Hash cc (Some salt) p = Inr h" and "hash_reads_back cc salt p"
  shows "\<exists>d. digest cc (cost cc) salt p = Some d
           \<and> unframe_hash cc h = Some (cost cc, salt, d)"
  using assms by (auto simp: Hash_def hash_reads_back_def split: option.splits)

lemma Verify_Hash:
  assumes "Hash cc (Some salt) p = Inr h" and "hash_reads_back cc salt p"
    and "accepted cc (cost cc)"
  shows "Verify cc p h"
  using Hash_unframed[OF assms(1,2)] assms(3) by (auto simp: Verify_def)

lemma Hash_salted:
  assumes "Hash cc (Some salt1) p1 = Inr h1" and "Hash cc (Some salt2) p2 = Inr h2"
    and "hash_reads_back cc salt1 p1" and "hash_reads_back cc salt2 p2"
    and "salt1 \<noteq> salt2"
  shows "h1 \<noteq> h2"
proof
  assume "h1 = h2"
  with Hash_unframed[OF assms(1,3)] Hash_unframed[OF assms(2,4)] assms(5)
  show False by auto
qed

lemma spec_hash_reads_back: "hash_reads_back (spec_credential_codec c legacy dg) salt p"
  by (simp add: hash_reads_back_def spec_credential_codec_def get_put_field get_put_nat
           split: option.splits)

lemma spec_Verify_Hash:
  assumes "Hash (spec_credential_codec c legacy dg) drawn p = Inr h"
  shows "Verify (spec_credential_codec c legacy dg) p h"
proof (cases drawn)
  case None
  with assms show ?thesis by (simp add: Hash_def)
next
  case (Some salt)
  have "accepted (spec_credential_codec c legacy dg) (cost (spec_credential_codec c legacy dg))"
    by (simp add: spec_credential_codec_def)
  with assms Some show ?thesis
    using Verify_Hash spec_hash_reads_back by blast
qed

lemma spec_Hash_fresh:
  assumes "Hash (spec_credential_codec c legacy dg) (Some (put_nat m)) p1 = Inr h1"
    and "Hash (spec_credential_codec c legacy dg) (Some (put_nat n)) p2 = Inr h2"
    and "m \<noteq> n"
  shows "h1 \<noteq> h2"
proof -
  from assms(3) have "put_nat m \<noteq> put_nat n"
    using put_nat_inj by blast
  with assms(1,2) show ?thesis
    using Hash_salted spec_hash_reads_back by blast
qed

lemma Hash_call_eq:
  "Hash_call cc src p =
     (Hash cc (if failing src (draws src) then None else Some (put_nat (draws src))) p,
      src\<lparr>draws := Suc (draws src)\<rparr>)"
  by (simp add: Hash_call_def draw_def)

lemma Hash_call_Inr:
  assumes "Hash_call cc src p = (Inr h, src')"
  shows "Hash cc (Some (put_nat (draws src))) p = Inr h" and "draws src' = Suc (draws src)"
  using assms by (auto simp: Hash_call_eq Hash_def split: if_splits)

lemma Hash_calls_nth:
  assumes "i < length ps"
  shows "Hash_calls cc src ps ! i =
           Hash cc (if failing src (draws src + i) then None
                    else Some (put_nat (draws src + i))) (ps ! i)"
  using assms
proof (induction ps arbitrary: src i)
  case Nil
  then show ?case by simp
next
  case (Cons p ps)
  show ?case
  proof (cases i)
    case 0
    then show ?thesis by (simp add: Hash_call_eq)
  next
    case (Suc k)
    with Cons.prems have "k < length ps" by simp
    from Cons.IH[OF this, of "snd (Hash_call cc src p)"] Suc show ?thesis
      by (simp add: Hash_call_eq)
  qed
qed

lemma Hash_calls_nth_Inr:
  assumes "i < length ps" and "Hash_calls cc src ps ! i = Inr h"
  shows "Hash cc (Some (put_nat (draws src + i))) (ps ! i) = Inr h"
  using assms by (auto simp: Hash_calls_nth Hash_def split: if_splits)

text \<open>
  Claim C5. For the Credential Codec of the specification, with any one-way function:
  whenever \<open>Hash\<close> succeeds on a plaintext, \<open>Verify\<close> accepts that plaintext for the stored
  value it made; two calls of \<open>Hash\<close> on the same plaintext, one after the other on the
  entropy source, make two different stored values, each of which verifies; and so do
  any two calls of a run of calls.
\<close>

theorem verify_accepts_own_hash:
  fixes c :: nat and legacy :: "nat \<Rightarrow> bool"
    and dg :: "nat \<Rightarrow> string \<Rightarrow> string \<Rightarrow> string option"
  defines "cc \<equiv> spec_credential_codec c legacy dg"
  shows
  "(\<forall>drawn h. Hash cc drawn p = Inr h \<longrightarrow> Verify cc p h)
   \<and> (\<forall>src h1 src1 h2 src2.
         Hash_call cc src p = (Inr h1, src1) \<and> Hash_call cc src1 p = (Inr h2, src2)
         \<longrightarrow> Verify cc p h1 \<and> Verify cc p h2 \<and> h1 \<noteq> h2)
   \<and> (\<forall>src ps i j h1 h2.
         i < j \<and> j < length ps
         \<and> Hash_calls cc src ps ! i = Inr h1 \<and> Hash_calls cc src ps ! j = Inr h2
         \<longrightarrow> h1 \<noteq> h2)"
proof (intro conjI allI impI)
  show "Verify cc p h" if "Hash cc drawn p = Inr h" for drawn h
    using that unfolding cc_def by (rule spec_Verify_Hash)
  fix src h1 src1 h2 src2
  assume calls: "Hash_call cc src p = (Inr h1, src1) \<and> Hash_call cc src1 p = (Inr h2, src2)"
  then have h1: "Hash cc (Some (put_nat (draws src))) p = Inr h1"
    and d: "draws src1 = Suc (draws src)"
    and h2: "Hash cc (Some (put_nat (draws src1))) p = Inr h2"
    using Hash_call_Inr by blast+
  show "Verify cc p h1"
    using h1 unfolding cc_def by (rule spec_Verify_Hash)
  show "Verify cc p h2"
    using h2 unfolding cc_def by (rule spec_Verify_Hash)
  show "h1 \<noteq> h2"
    using h1 h2 d spec_Hash_fresh[of c legacy dg "draws src" p h1 "draws src1" p h2]
    unfolding cc_def by simp
next
  fix src ps i j h1 h2
  assume a: "i < j \<and> j < length ps
         \<and> Hash_calls cc src ps ! i = Inr h1 \<and> Hash_calls cc src ps ! j = Inr h2"
  then have "Hash cc (Some (put_nat (draws src + i))) (ps ! i) = Inr h1"
    and "Hash cc (Some (put_nat (draws src + j))) (ps ! j) = Inr h2"
    using Hash_calls_nth_Inr[of i ps cc src h1] Hash_calls_nth_Inr[of j ps cc src h2] by auto
  with a show "h1 \<noteq> h2"
    using spec_Hash_fresh[of c legacy dg "draws src + i" "ps ! i" h1 "draws src + j" "ps ! j" h2]
    unfolding cc_def by simp
qed

lemma test_hash_calls:
  "Hash_call test_spec_credential_codec (source_at 0) ''secret1'' = (Inr (hash_at 0), source_at 1)"
  "Hash_call test_spec_credential_codec (source_at 1) ''secret1'' = (Inr (hash_at 1), source_at 2)"
  "Hash_calls test_spec_credential_codec (source_at 0) [''secret1'', ''secret1'']
     = [Inr (hash_at 0), Inr (hash_at 1)]"
  by (simp_all add: Hash_call_eq Hash_def test_spec_credential_codec_def spec_credential_codec_def
        source_at_def hash_at_def)

theorem verify_accepts_own_hash_witness:
  "Hash_call test_spec_credential_codec (source_at 0) ''secret1'' = (Inr (hash_at 0), source_at 1)
   \<and> Hash_call test_spec_credential_codec (source_at 1) ''secret1''
       = (Inr (hash_at 1), source_at 2)
   \<and> Verify test_spec_credential_codec ''secret1'' (hash_at 0)
   \<and> Verify test_spec_credential_codec ''secret1'' (hash_at 1)
   \<and> hash_at 0 \<noteq> hash_at 1
   \<and> Hash_calls test_spec_credential_codec (source_at 0) [''secret1'', ''secret1'']
       = [Inr (hash_at 0), Inr (hash_at 1)]"
  using test_hash_calls
    verify_accepts_own_hash
      [of 10 "\<lambda>c. False" "\<lambda>c salt p. Some (salt @ p)" "''secret1''",
       folded test_spec_credential_codec_def]
  by blast

section \<open>The Token Codec\<close>
















end
